theory Spec2Isabelle
  imports Complex_Main "HOL-Library.Monad_Syntax" "HOL-Library.Multiset"
begin

section \<open>JavaScript numbers and values\<close>

text \<open>
  The engine in \<^verbatim>\<open>js/calcs.js\<close> and \<^verbatim>\<open>js/ui.js\<close> computes with JavaScript numbers.
  A number is modelled as a finite real or one of the three non-finite values. Arithmetic
  on finite values is exact: rounding, overflow and underflow of IEEE doubles are not
  modelled, decimal literals such as \<^verbatim>\<open>0.1\<close> stand for the decimal they spell, and zero
  carries no sign (a division by zero follows the sign of the numerator, as a division by
  \<^verbatim>\<open>+0\<close> does). The non-finite values follow IEEE 754: \<^verbatim>\<open>NaN\<close> is absorbing,
  every comparison with it is false, \<^verbatim>\<open>Infinity - Infinity\<close>, \<^verbatim>\<open>0 * Infinity\<close>,
  \<^verbatim>\<open>0 / 0\<close> and \<^verbatim>\<open>Infinity / Infinity\<close> are \<^verbatim>\<open>NaN\<close>.
\<close>

datatype jsnum = Fin real | PInf | NInf | NaN

fun inf_of_sign :: "real \<Rightarrow> jsnum" where
  "inf_of_sign s = (if 0 < s then PInf else if s < 0 then NInf else NaN)"

fun sgnj :: "jsnum \<Rightarrow> real" where
  "sgnj (Fin a) = sgn a"
| "sgnj PInf = 1"
| "sgnj NInf = - 1"
| "sgnj NaN = 0"

instantiation jsnum :: "{zero, one, plus, minus, uminus, times, inverse, abs, ord, power}"
begin

definition zero_jsnum :: jsnum where
  "zero_jsnum = Fin 0"

definition one_jsnum :: jsnum where
  "one_jsnum = Fin 1"

fun plus_jsnum :: "jsnum \<Rightarrow> jsnum \<Rightarrow> jsnum" where
  "plus_jsnum (Fin a) (Fin b) = Fin (a + b)"
| "plus_jsnum NaN _ = NaN"
| "plus_jsnum _ NaN = NaN"
| "plus_jsnum PInf NInf = NaN"
| "plus_jsnum NInf PInf = NaN"
| "plus_jsnum PInf _ = PInf"
| "plus_jsnum _ PInf = PInf"
| "plus_jsnum NInf _ = NInf"
| "plus_jsnum _ NInf = NInf"

fun uminus_jsnum :: "jsnum \<Rightarrow> jsnum" where
  "uminus_jsnum (Fin a) = Fin (- a)"
| "uminus_jsnum PInf = NInf"
| "uminus_jsnum NInf = PInf"
| "uminus_jsnum NaN = NaN"

definition minus_jsnum :: "jsnum \<Rightarrow> jsnum \<Rightarrow> jsnum" where
  "minus_jsnum x y = x + (- y)"

fun times_jsnum :: "jsnum \<Rightarrow> jsnum \<Rightarrow> jsnum" where
  "times_jsnum (Fin a) (Fin b) = Fin (a * b)"
| "times_jsnum NaN _ = NaN"
| "times_jsnum _ NaN = NaN"
| "times_jsnum x y = inf_of_sign (sgnj x * sgnj y)"

fun divide_jsnum :: "jsnum \<Rightarrow> jsnum \<Rightarrow> jsnum" where
  "divide_jsnum (Fin a) (Fin b) = (if b = 0 then inf_of_sign (sgn a) else Fin (a / b))"
| "divide_jsnum NaN _ = NaN"
| "divide_jsnum _ NaN = NaN"
| "divide_jsnum (Fin a) _ = Fin 0"
| "divide_jsnum x (Fin b) = inf_of_sign (sgnj x * (if b < 0 then - 1 else 1))"
| "divide_jsnum _ _ = NaN"

definition inverse_jsnum :: "jsnum \<Rightarrow> jsnum" where
  "inverse_jsnum x = divide (Fin 1) x"

fun abs_jsnum :: "jsnum \<Rightarrow> jsnum" where
  "abs_jsnum (Fin a) = Fin \<bar>a\<bar>"
| "abs_jsnum PInf = PInf"
| "abs_jsnum NInf = PInf"
| "abs_jsnum NaN = NaN"

fun less_jsnum :: "jsnum \<Rightarrow> jsnum \<Rightarrow> bool" where
  "less_jsnum (Fin a) (Fin b) = (a < b)"
| "less_jsnum (Fin a) PInf = True"
| "less_jsnum NInf (Fin b) = True"
| "less_jsnum NInf PInf = True"
| "less_jsnum _ _ = False"

definition less_eq_jsnum :: "jsnum \<Rightarrow> jsnum \<Rightarrow> bool" where
  "less_eq_jsnum x y = (x < y \<or> (x = y \<and> x \<noteq> NaN))"

instance ..

end

text \<open>
  A field of the deal state holds a number, \<^verbatim>\<open>null\<close> (an emptied number input, the
  auto sentinel of \<^verbatim>\<open>loanAmount\<close>) or is missing; \<^verbatim>\<open>bindFieldUpdates\<close> stores
  \<^verbatim>\<open>Number(v)\<close> or \<^verbatim>\<open>null\<close> for every numeric input.
\<close>

datatype jsval = JNum jsnum | JNull | JUndefined

text \<open>\<^verbatim>\<open>Number.isFinite\<close> on a number and on an arbitrary value; \<^verbatim>\<open>Number(v)\<close>; \<^verbatim>\<open>x || d\<close>.\<close>

fun isFinite :: "jsnum \<Rightarrow> bool" where
  "isFinite (Fin a) = True"
| "isFinite _ = False"

fun isFiniteV :: "jsval \<Rightarrow> bool" where
  "isFiniteV (JNum x) = isFinite x"
| "isFiniteV _ = False"

fun toNumber :: "jsval \<Rightarrow> jsnum" where
  "toNumber (JNum x) = x"
| "toNumber JNull = Fin 0"
| "toNumber JUndefined = NaN"

definition orElse :: "jsnum \<Rightarrow> jsnum \<Rightarrow> jsnum" where
  "orElse x d = (if x = Fin 0 \<or> x = NaN then d else x)"

text \<open>\<^verbatim>\<open>Math.max\<close>, \<^verbatim>\<open>Math.min\<close> (\<^verbatim>\<open>NaN\<close> if either argument is), \<^verbatim>\<open>Math.floor\<close>,
  \<^verbatim>\<open>Math.round\<close> (half-way cases go up), \<^verbatim>\<open>Math.log\<close>, \<^verbatim>\<open>Math.sqrt\<close>, \<^verbatim>\<open>Math.cos\<close>.\<close>

definition mathMax :: "jsnum \<Rightarrow> jsnum \<Rightarrow> jsnum" where
  "mathMax x y = (if x = NaN \<or> y = NaN then NaN else if x < y then y else x)"

definition mathMin :: "jsnum \<Rightarrow> jsnum \<Rightarrow> jsnum" where
  "mathMin x y = (if x = NaN \<or> y = NaN then NaN else if y < x then y else x)"

fun mathFloor :: "jsnum \<Rightarrow> jsnum" where
  "mathFloor (Fin a) = Fin (of_int \<lfloor>a\<rfloor>)"
| "mathFloor x = x"

fun mathRound :: "jsnum \<Rightarrow> jsnum" where
  "mathRound (Fin a) = Fin (of_int \<lfloor>a + 1 / 2\<rfloor>)"
| "mathRound x = x"

fun mathLog :: "jsnum \<Rightarrow> jsnum" where
  "mathLog (Fin a) = (if 0 < a then Fin (ln a) else if a = 0 then NInf else NaN)"
| "mathLog PInf = PInf"
| "mathLog _ = NaN"

fun mathSqrt :: "jsnum \<Rightarrow> jsnum" where
  "mathSqrt (Fin a) = (if 0 \<le> a then Fin (sqrt a) else NaN)"
| "mathSqrt PInf = PInf"
| "mathSqrt _ = NaN"

fun mathCos :: "jsnum \<Rightarrow> jsnum" where
  "mathCos (Fin a) = Fin (cos a)"
| "mathCos _ = NaN"

section \<open>Formula library (\<^verbatim>\<open>js/calcs.js\<close>)\<close>

text \<open>\<^verbatim>\<open>function n(v){ return Number.isFinite(v) ? v : 0; }\<close>\<close>

definition n_num :: "jsval \<Rightarrow> jsnum" where
  "n_num v = (if isFiniteV v then toNumber v else Fin 0)"

definition clamp :: "jsnum \<Rightarrow> jsnum \<Rightarrow> jsnum \<Rightarrow> jsnum" where
  "clamp v lo hi = mathMin hi (mathMax lo v)"

text \<open>
  The month count \<^verbatim>\<open>N = Math.round(n(termYears)*12)\<close> is a finite whole number, since
  \<^verbatim>\<open>n\<close> returns a finite number; \<open>months_of\<close> reads it as an integer for the loop
  bound and the exponent.
\<close>

fun months_of :: "jsnum \<Rightarrow> int" where
  "months_of (Fin a) = \<lfloor>a\<rfloor>"
| "months_of _ = 0"

definition monthlyPayment :: "jsval \<Rightarrow> jsval \<Rightarrow> jsval \<Rightarrow> jsnum" where
  "monthlyPayment loanAmt annualRatePct termYrs =
    (let P = n_num loanAmt;
         r = n_num annualRatePct / Fin 100 / Fin 12;
         N = mathRound (n_num termYrs * Fin 12)
     in if P \<le> Fin 0 \<or> N \<le> Fin 0 then Fin 0
        else if r = Fin 0 then P / N
        else P * (r * (Fin 1 + r) ^ nat (months_of N)) / ((Fin 1 + r) ^ nat (months_of N) - Fin 1))"

record amortRow =
  month :: nat
  payment :: jsnum
  principal :: jsnum
  interest :: jsnum
  balance :: jsnum

function amortLoop :: "jsnum \<Rightarrow> jsnum \<Rightarrow> int \<Rightarrow> nat \<Rightarrow> jsnum \<Rightarrow> amortRow list \<Rightarrow> amortRow list" where
  "amortLoop r pay N m bal out =
    (if int m \<le> N then
       (let intr = bal * r;
            prin = mathMax (Fin 0) (pay - intr);
            bal' = mathMax (Fin 0) (bal - prin);
            out' = out @ [\<lparr>month = m, payment = pay, principal = prin, interest = intr, balance = bal'\<rparr>]
        in if bal' \<le> Fin (5 / 1000) then out' else amortLoop r pay N (Suc m) bal' out')
     else out)"
  by pat_completeness auto
termination
  by (relation "measure (\<lambda>(r, pay, N, m, bal, out). nat (N + 1 - int m))") auto

definition amortSchedule :: "jsval \<Rightarrow> jsval \<Rightarrow> jsval \<Rightarrow> amortRow list" where
  "amortSchedule loanAmt annualRatePct termYrs =
    (let P0 = n_num loanAmt;
         r = n_num annualRatePct / Fin 100 / Fin 12;
         N = mathRound (n_num termYrs * Fin 12);
         pay = monthlyPayment (JNum P0) annualRatePct termYrs
     in amortLoop r pay (months_of N) 1 P0 [])"


record line =
  label :: string
  amount :: jsval

text \<open>The two line arrays are \<open>None\<close> when the field does not hold an array.\<close>

record deal =
  purchasePrice :: jsval
  closingCosts :: jsval
  rehabCosts :: jsval
  downPaymentPct :: jsval
  interestRate :: jsval
  termYears :: jsval
  pointsPct :: jsval
  loanFees :: jsval
  loanAmount :: jsval
  rentMonthly :: jsval
  otherIncomeLines :: "line list option"
  propertyTaxesAnnual :: jsval
  insuranceAnnual :: jsval
  hoaMonthly :: jsval
  utilitiesMonthly :: jsval
  vacancyPct :: jsval
  managementPct :: jsval
  maintenancePct :: jsval
  capexPct :: jsval
  otherExpenseLines :: "line list option"
  sellingCostPct :: jsval
  exitCapRate :: jsval

definition computeLoanAmount :: "deal \<Rightarrow> jsnum" where
  "computeLoanAmount st =
    (if loanAmount st \<noteq> JNull \<and> isFinite (toNumber (loanAmount st)) then n_num (loanAmount st)
     else let purchase = n_num (purchasePrice st);
              down = clamp (n_num (downPaymentPct st) / Fin 100) (Fin 0) (Fin 1)
          in purchase * (Fin 1 - down))"

definition totalCashInvested :: "deal \<Rightarrow> jsnum" where
  "totalCashInvested st =
    (let purchase = n_num (purchasePrice st);
         down = purchase - computeLoanAmount st;
         points = computeLoanAmount st * (n_num (pointsPct st) / Fin 100)
     in down + n_num (closingCosts st) + n_num (rehabCosts st) + n_num (loanFees st) + points)"

definition sumLines :: "line list option \<Rightarrow> jsnum" where
  "sumLines ls = (case ls of None \<Rightarrow> Fin 0
                  | Some xs \<Rightarrow> foldl (\<lambda>a x. a + n_num (amount x)) (Fin 0) xs)"

record proforma =
  gsi :: jsnum
  vacancy :: jsnum
  egi :: jsnum
  taxes :: jsnum
  ins :: jsnum
  hoa :: jsnum
  util :: jsnum
  mgmt :: jsnum
  maint :: jsnum
  capex :: jsnum
  otherExp :: jsnum
  opex :: jsnum
  noi :: jsnum
  ds :: jsnum
  cashflow :: jsnum
  capRate :: jsnum
  coc :: jsnum
  dscr :: jsnum
  breakevenOcc :: jsnum

definition proformaAnnual :: "deal \<Rightarrow> proforma" where
  "proformaAnnual st =
    (let rent = n_num (rentMonthly st) * Fin 12;
         otherIncome = sumLines (otherIncomeLines st) * Fin 12;
         gsi_v = rent + otherIncome;
         vacancy_v = gsi_v * clamp (n_num (vacancyPct st) / Fin 100) (Fin 0) (Fin (9 / 10));
         egi_v = gsi_v - vacancy_v;
         taxes_v = n_num (propertyTaxesAnnual st);
         ins_v = n_num (insuranceAnnual st);
         hoa_v = n_num (hoaMonthly st) * Fin 12;
         util_v = n_num (utilitiesMonthly st) * Fin 12;
         mgmt_v = gsi_v * clamp (n_num (managementPct st) / Fin 100) (Fin 0) (Fin (9 / 10));
         maint_v = gsi_v * clamp (n_num (maintenancePct st) / Fin 100) (Fin 0) (Fin (9 / 10));
         capex_v = gsi_v * clamp (n_num (capexPct st) / Fin 100) (Fin 0) (Fin (9 / 10));
         otherExp_v = sumLines (otherExpenseLines st) * Fin 12;
         opex_v = taxes_v + ins_v + hoa_v + util_v + mgmt_v + maint_v + capex_v + otherExp_v;
         noi_v = egi_v - opex_v;
         loan = computeLoanAmount st;
         ds_v = monthlyPayment (JNum loan) (JNum (n_num (interestRate st))) (JNum (n_num (termYears st)))
                  * Fin 12;
         cashflow_v = noi_v - ds_v;
         capRate_v = (if Fin 0 < n_num (purchasePrice st) then noi_v / n_num (purchasePrice st) else Fin 0);
         coc_v = (if Fin 0 < totalCashInvested st then cashflow_v / totalCashInvested st else Fin 0);
         dscr_v = (if Fin 0 < ds_v then noi_v / ds_v else Fin 0);
         breakevenOcc_v = (if Fin 0 < gsi_v then (opex_v + ds_v) / gsi_v else Fin 0)
     in \<lparr>gsi = gsi_v, vacancy = vacancy_v, egi = egi_v,
         taxes = taxes_v, ins = ins_v, hoa = hoa_v, util = util_v,
         mgmt = mgmt_v, maint = maint_v, capex = capex_v, otherExp = otherExp_v,
         opex = opex_v, noi = noi_v, ds = ds_v, cashflow = cashflow_v,
         capRate = capRate_v, coc = coc_v, dscr = dscr_v, breakevenOcc = breakevenOcc_v\<rparr>)"

section \<open>Root finder (\<^verbatim>\<open>irr\<close>)\<close>

text \<open>
  \<^verbatim>\<open>npv\<close> and \<^verbatim>\<open>dnpv\<close> add their terms from left to right, with the index \<open>t\<close>
  and the running sum \<open>s\<close> of the source's loops; \<^verbatim>\<open>dnpv\<close> starts at index 1.
\<close>

fun npv_loop :: "jsnum list \<Rightarrow> jsnum \<Rightarrow> nat \<Rightarrow> jsnum \<Rightarrow> jsnum" where
  "npv_loop [] r t s = s"
| "npv_loop (c # cs) r t s = npv_loop cs r (Suc t) (s + c / (Fin 1 + r) ^ t)"

definition npv :: "jsnum list \<Rightarrow> jsnum \<Rightarrow> jsnum" where
  "npv cashflows r = npv_loop cashflows r 0 (Fin 0)"

fun dnpv_loop :: "jsnum list \<Rightarrow> jsnum \<Rightarrow> nat \<Rightarrow> jsnum \<Rightarrow> jsnum" where
  "dnpv_loop [] r t s = s"
| "dnpv_loop (c # cs) r t s = dnpv_loop cs r (Suc t) (s + (- Fin (real t)) * c / (Fin 1 + r) ^ (t + 1))"

definition dnpv :: "jsnum list \<Rightarrow> jsnum \<Rightarrow> jsnum" where
  "dnpv cashflows r = dnpv_loop (drop 1 cashflows) r 1 (Fin 0)"

definition eps :: jsnum where
  "eps = Fin (1 / 10 ^ 7)"

text \<open>
  The Newton phase, counting down the iterations that remain of \<^verbatim>\<open>maxIter\<close>. \<open>Some r\<close> is
  a \<^verbatim>\<open>return\<close> inside the loop; \<open>None\<close> is a \<^verbatim>\<open>break\<close> or the loop running out.
\<close>

fun newton_loop :: "jsnum list \<Rightarrow> nat \<Rightarrow> jsnum \<Rightarrow> jsnum option" where
  "newton_loop cashflows 0 r = None"
| "newton_loop cashflows (Suc k) r =
    (let f = npv cashflows r;
         df = dnpv cashflows r
     in if \<bar>f\<bar> < eps then Some r
        else if \<bar>df\<bar> < Fin (1 / 10 ^ 12) then None
        else let nr = r - f / df
             in if \<not> isFinite nr then None
                else if \<bar>nr - r\<bar> < Fin (1 / 10 ^ 10) then Some nr
                else newton_loop cashflows k nr)"

fun bisect_loop :: "jsnum list \<Rightarrow> nat \<Rightarrow> jsnum \<Rightarrow> jsnum \<Rightarrow> jsnum \<Rightarrow> jsnum \<Rightarrow> jsnum" where
  "bisect_loop cashflows 0 lo hi flo fhi = (lo + hi) / Fin 2"
| "bisect_loop cashflows (Suc k) lo hi flo fhi =
    (let mid = (lo + hi) / Fin 2;
         fmid = npv cashflows mid
     in if \<bar>fmid\<bar> < eps then mid
        else if flo * fmid < Fin 0 then bisect_loop cashflows k lo mid flo fmid
        else bisect_loop cashflows k mid hi fmid fhi)"

definition irr :: "jsnum list \<Rightarrow> jsnum" where
  "irr cashflows =
    (case newton_loop cashflows 80 (Fin (1 / 10)) of
       Some r \<Rightarrow> r
     | None \<Rightarrow>
        (let lo = Fin (- (95 / 100)); hi = Fin 5;
             flo = npv cashflows lo; fhi = npv cashflows hi
         in if Fin 0 < flo * fhi then NaN
            else bisect_loop cashflows 120 lo hi flo fhi))"

text \<open>
  The two endpoint values have the same strict sign: the reading of ``the NPV does not
  change sign across the domain'' under which the interval brackets no root.
\<close>

definition same_sign :: "jsnum \<Rightarrow> jsnum \<Rightarrow> bool" where
  "same_sign a b = ((Fin 0 < a \<and> Fin 0 < b) \<or> (a < Fin 0 \<and> b < Fin 0))"

section \<open>Statistics (\<^verbatim>\<open>quantile\<close>)\<close>

text \<open>An array read \<^verbatim>\<open>xs[i]\<close>: \<^verbatim>\<open>undefined\<close> unless \<open>i\<close> is a whole number in range.\<close>

fun js_index :: "jsnum list \<Rightarrow> jsnum \<Rightarrow> jsval" where
  "js_index xs (Fin a) =
     (if a = of_int \<lfloor>a\<rfloor> \<and> 0 \<le> a \<and> nat \<lfloor>a\<rfloor> < length xs then JNum (xs ! nat \<lfloor>a\<rfloor>) else JUndefined)"
| "js_index xs _ = JUndefined"

definition quantile :: "jsnum list \<Rightarrow> jsnum \<Rightarrow> jsval" where
  "quantile srt q =
    (if length srt = 0 then JNum NaN
     else let p = Fin (real (length srt) - 1) * q;
              i = mathFloor p;
              f = p - i
          in if Fin (real (length srt)) \<le> i + Fin 1 then js_index srt i
             else JNum (toNumber (js_index srt i) * (Fin 1 - f) + toNumber (js_index srt (i + Fin 1)) * f))"


section \<open>Sensitivity grid (\<^verbatim>\<open>renderSensitivity\<close>)\<close>




section \<open>Monte Carlo engine (\<^verbatim>\<open>randn\<close>, \<^verbatim>\<open>runMonteCarlo\<close>)\<close>

text \<open>
  \<^verbatim>\<open>Math.random\<close> is a sequence \<open>g\<close> of draws and a cursor into it. Each
  \<^verbatim>\<open>while(u===0) u=Math.random()\<close> of \<^verbatim>\<open>randn\<close> draws until a draw is not zero, and
  does not return if none ever is: that is the value \<open>None\<close>.
\<close>

partial_function (option) draw_nonzero :: "(nat \<Rightarrow> real) \<Rightarrow> nat \<Rightarrow> (jsnum \<times> nat) option" where
  "draw_nonzero g k = (if Fin (g k) = Fin 0 then draw_nonzero g (Suc k) else Some (Fin (g k), Suc k))"

definition randn :: "(nat \<Rightarrow> real) \<Rightarrow> nat \<Rightarrow> (jsnum \<times> nat) option" where
  "randn g k =
    do {
      (u, k1) \<leftarrow> draw_nonzero g k;
      (v, k2) \<leftarrow> draw_nonzero g k1;
      Some (mathSqrt (Fin (- 2) * mathLog u) * mathCos (Fin 2 * Fin pi * v), k2)
    }"

text \<open>The contract of \<^verbatim>\<open>Math.random\<close>: every draw lies in \<open>[0, 1)\<close>.\<close>

definition uniform_draws :: "(nat \<Rightarrow> real) \<Rightarrow> bool" where
  "uniform_draws g = (\<forall>k. 0 \<le> g k \<and> g k < 1)"

text \<open>The generator does not return zero for ever.\<close>

definition draws_recur :: "(nat \<Rightarrow> real) \<Rightarrow> bool" where
  "draws_recur g = (\<forall>k. \<exists>j\<ge>k. g j \<noteq> 0)"

record dist1 =
  mean :: jsnum
  std :: jsnum

record distSpec =
  d_rent :: dist1
  d_exp :: dist1
  d_appr :: dist1
  d_vac :: dist1

text \<open>
  The snapshot \<^verbatim>\<open>sY\<close> of one projected year, built the same way inside the yearly loop and
  in the exit-cap branch.
\<close>

definition scaleLines :: "line list option \<Rightarrow> jsnum \<Rightarrow> line list option" where
  "scaleLines ls factor =
     Some (map (\<lambda>x. x\<lparr>amount := JNum (orElse (toNumber (amount x)) (Fin 0) * factor)\<rparr>)
             (case ls of None \<Rightarrow> [] | Some xs \<Rightarrow> xs))"

definition yearState :: "deal \<Rightarrow> jsnum \<Rightarrow> jsnum \<Rightarrow> jsnum \<Rightarrow> deal" where
  "yearState st rentMult expMult vac =
     st\<lparr>rentMonthly := JNum (orElse (toNumber (rentMonthly st)) (Fin 0) * rentMult),
        vacancyPct := JNum (vac * Fin 100),
        propertyTaxesAnnual := JNum (orElse (toNumber (propertyTaxesAnnual st)) (Fin 0) * expMult),
        insuranceAnnual := JNum (orElse (toNumber (insuranceAnnual st)) (Fin 0) * expMult),
        hoaMonthly := JNum (orElse (toNumber (hoaMonthly st)) (Fin 0) * expMult),
        utilitiesMonthly := JNum (orElse (toNumber (utilitiesMonthly st)) (Fin 0) * expMult),
        otherExpenseLines := scaleLines (otherExpenseLines st) expMult,
        otherIncomeLines := scaleLines (otherIncomeLines st) rentMult\<rparr>"

text \<open>\<^verbatim>\<open>Math.pow(b, years-1)\<close>: the exponent is \<open>-1\<close> when \<open>years\<close> is zero.\<close>

definition pow_pred :: "jsnum \<Rightarrow> nat \<Rightarrow> jsnum" where
  "pow_pred b years = (if years = 0 then Fin 1 / b else b ^ (years - 1))"

definition sample :: "dist1 \<Rightarrow> jsnum \<Rightarrow> jsnum" where
  "sample d z = (mean d + std d * z) / Fin 100"

text \<open>
  One trial, given the four values \<open>z1\<close>, \<dots>, \<open>z4\<close> that \<^verbatim>\<open>randn()\<close> returned to it. The
  result is the pair of \<^verbatim>\<open>r\<close> and \<^verbatim>\<open>netSale\<close>. The projection horizon is a whole number
  of years.
\<close>

definition mcTrial ::
  "deal \<Rightarrow> nat \<Rightarrow> distSpec \<Rightarrow> string \<Rightarrow> jsnum \<Rightarrow> amortRow list
     \<Rightarrow> jsnum \<Rightarrow> jsnum \<Rightarrow> jsnum \<Rightarrow> jsnum \<Rightarrow> jsnum \<times> jsnum" where
  "mcTrial st years dspec exitMethod invested sched z1 z2 z3 z4 =
    (let rentG = sample (d_rent dspec) z1;
         expG = sample (d_exp dspec) z2;
         appr = sample (d_appr dspec) z3;
         vac = clamp (sample (d_vac dspec) z4) (Fin 0) (Fin (5 / 10));
         cashflows = [- invested] @
           map (\<lambda>y. let pf = proformaAnnual
                               (yearState st ((Fin 1 + rentG) ^ (y - 1)) ((Fin 1 + expG) ^ (y - 1)) vac)
                     in noi pf - ds pf) [1..<Suc years];
         idx = int (min (years * 12) (length sched)) - 1;
         payoffBal = (if 0 \<le> idx then balance (sched ! nat idx) else Fin 0);
         salePrice =
           (if exitMethod = ''exitcap'' then
              let cap = clamp (orElse (toNumber (exitCapRate st)) (Fin (65 / 10)) / Fin 100)
                          (Fin (1 / 100)) (Fin (25 / 100));
                  pf = proformaAnnual
                         (yearState st (pow_pred (Fin 1 + rentG) years) (pow_pred (Fin 1 + expG) years) vac)
              in noi pf / cap
            else orElse (toNumber (purchasePrice st)) (Fin 0) * (Fin 1 + appr) ^ years);
         sellPct = clamp (orElse (toNumber (sellingCostPct st)) (Fin 7) / Fin 100) (Fin 0) (Fin (25 / 100));
         netSale = salePrice * (Fin 1 - sellPct) - payoffBal;
         lastIx = length cashflows - 1;
         cashflows' = cashflows[lastIx := cashflows ! lastIx + netSale]
     in (irr cashflows', netSale))"

text \<open>
  The trial loop: four calls of \<^verbatim>\<open>randn\<close> in the order rent, expenses, appreciation,
  vacancy; the rate is pushed to \<^verbatim>\<open>irrList\<close> only when finite, the proceeds to
  \<^verbatim>\<open>endEquityList\<close> always.
\<close>

fun mcLoop ::
  "(jsnum \<Rightarrow> jsnum \<Rightarrow> jsnum \<Rightarrow> jsnum \<Rightarrow> jsnum \<times> jsnum) \<Rightarrow> (nat \<Rightarrow> real) \<Rightarrow> nat \<Rightarrow> nat
     \<Rightarrow> jsnum list \<Rightarrow> jsnum list \<Rightarrow> (jsnum list \<times> jsnum list) option" where
  "mcLoop trial g 0 k irrList endEquityList = Some (irrList, endEquityList)"
| "mcLoop trial g (Suc i) k irrList endEquityList =
    do {
      (z1, k1) \<leftarrow> randn g k;
      (z2, k2) \<leftarrow> randn g k1;
      (z3, k3) \<leftarrow> randn g k2;
      (z4, k4) \<leftarrow> randn g k3;
      let (r, netSale) = trial z1 z2 z3 z4;
      mcLoop trial g i k4 (if isFinite r then irrList @ [r] else irrList) (endEquityList @ [netSale])
    }"

text \<open>
  \<^verbatim>\<open>xs.sort((a,b)=>a-b)\<close>. An engine places \<open>a\<close> after \<open>b\<close> when the comparator is
  positive. On an array without \<^verbatim>\<open>NaN\<close> the comparator is consistent and the result is the
  ascending arrangement, whatever the engine's algorithm; with a \<^verbatim>\<open>NaN\<close> element the
  language leaves the order to the engine, and the insertion order below is one such choice.
\<close>

fun insertNum :: "jsnum \<Rightarrow> jsnum list \<Rightarrow> jsnum list" where
  "insertNum x [] = [x]"
| "insertNum x (y # ys) = (if Fin 0 < x - y then y # insertNum x ys else x # y # ys)"

fun sortNum :: "jsnum list \<Rightarrow> jsnum list" where
  "sortNum [] = []"
| "sortNum (x # xs) = insertNum x (sortNum xs)"

record mcResult =
  irr_p10 :: jsval
  irr_p50 :: jsval
  irr_p90 :: jsval
  irr_mean :: jsnum
  eq_p10 :: jsval
  eq_p50 :: jsval
  eq_p90 :: jsval

definition mcAggregate :: "jsnum list \<Rightarrow> jsnum list \<Rightarrow> mcResult" where
  "mcAggregate irrList endEquityList =
    \<lparr>irr_p10 = quantile irrList (Fin (10 / 100)),
     irr_p50 = quantile irrList (Fin (50 / 100)),
     irr_p90 = quantile irrList (Fin (90 / 100)),
     irr_mean = foldl (+) (Fin 0) irrList / orElse (Fin (real (length irrList))) (Fin 1),
     eq_p10 = quantile endEquityList (Fin (10 / 100)),
     eq_p50 = quantile endEquityList (Fin (50 / 100)),
     eq_p90 = quantile endEquityList (Fin (90 / 100))\<rparr>"

definition runMonteCarlo ::
  "deal \<Rightarrow> nat \<Rightarrow> nat \<Rightarrow> distSpec \<Rightarrow> string \<Rightarrow> (nat \<Rightarrow> real) \<Rightarrow> mcResult option" where
  "runMonteCarlo st runs years dspec exitMethod g =
    (let invested = totalCashInvested st;
         loan = computeLoanAmount st;
         sched = amortSchedule (JNum loan) (interestRate st) (termYears st)
     in do {
          (irrList, endEquityList) \<leftarrow>
             mcLoop (mcTrial st years dspec exitMethod invested sched) g runs 0 [] [];
          Some (mcAggregate (sortNum irrList) (sortNum endEquityList))
        })"

text \<open>
  The outcomes of the trials in the order they run, as a list of pairs of rate and net sale
  proceeds: what the aggregation is specified over.
\<close>

fun mcOutcomes ::
  "(jsnum \<Rightarrow> jsnum \<Rightarrow> jsnum \<Rightarrow> jsnum \<Rightarrow> jsnum \<times> jsnum) \<Rightarrow> (nat \<Rightarrow> real) \<Rightarrow> nat \<Rightarrow> nat
     \<Rightarrow> (jsnum \<times> jsnum) list option" where
  "mcOutcomes trial g 0 k = Some []"
| "mcOutcomes trial g (Suc i) k =
    do {
      (z1, k1) \<leftarrow> randn g k;
      (z2, k2) \<leftarrow> randn g k1;
      (z3, k3) \<leftarrow> randn g k2;
      (z4, k4) \<leftarrow> randn g k3;
      rest \<leftarrow> mcOutcomes trial g i k4;
      Some (trial z1 z2 z3 z4 # rest)
    }"

definition trialsOf ::
  "deal \<Rightarrow> nat \<Rightarrow> nat \<Rightarrow> distSpec \<Rightarrow> string \<Rightarrow> (nat \<Rightarrow> real) \<Rightarrow> (jsnum \<times> jsnum) list option" where
  "trialsOf st runs years dspec exitMethod g =
     mcOutcomes (mcTrial st years dspec exitMethod (totalCashInvested st)
                   (amortSchedule (JNum (computeLoanAmount st)) (interestRate st) (termYears st)))
       g runs 0"

section \<open>The default deal (\<^verbatim>\<open>defaultState\<close>)\<close>

definition defaultState :: deal where
  "defaultState =
    \<lparr>purchasePrice = JNum (Fin 350000),
     closingCosts = JNum (Fin 8000),
     rehabCosts = JNum (Fin 0),
     downPaymentPct = JNum (Fin 25),
     interestRate = JNum (Fin (675 / 100)),
     termYears = JNum (Fin 30),
     pointsPct = JNum (Fin 0),
     loanFees = JNum (Fin 0),
     loanAmount = JNull,
     rentMonthly = JNum (Fin 2800),
     otherIncomeLines = Some [],
     propertyTaxesAnnual = JNum (Fin 3600),
     insuranceAnnual = JNum (Fin 1200),
     hoaMonthly = JNum (Fin 0),
     utilitiesMonthly = JNum (Fin 0),
     vacancyPct = JNum (Fin 5),
     managementPct = JNum (Fin 8),
     maintenancePct = JNum (Fin 5),
     capexPct = JNum (Fin 5),
     otherExpenseLines = Some [],
     sellingCostPct = JNum (Fin 7),
     exitCapRate = JNum (Fin (65 / 10))\<rparr>"

section \<open>Inputs of the examples\<close>

text \<open>A distribution specification without variance, with the given mean appreciation.\<close>

definition zeroVariance :: "jsnum \<Rightarrow> distSpec" where
  "zeroVariance apprMean =
    \<lparr>d_rent = \<lparr>mean = Fin 3, std = Fin 0\<rparr>,
     d_exp = \<lparr>mean = Fin 2, std = Fin 0\<rparr>,
     d_appr = \<lparr>mean = apprMean, std = Fin 0\<rparr>,
     d_vac = \<lparr>mean = Fin 5, std = Fin 0\<rparr>\<rparr>"

text \<open>The default deal bought for cash and left vacant, without taxes or insurance.\<close>

definition cashDeal :: deal where
  "cashDeal = defaultState
    \<lparr>downPaymentPct := JNum (Fin 100), closingCosts := JNum (Fin 0), rentMonthly := JNum (Fin 0),
     propertyTaxesAnnual := JNum (Fin 0), insuranceAnnual := JNum (Fin 0)\<rparr>"

section \<open>Arithmetic on finite numbers\<close>

lemma one_jsnum [simp]: "(1::jsnum) = Fin 1"
  by (simp add: one_jsnum_def)

lemma zero_jsnum [simp]: "(0::jsnum) = Fin 0"
  by (simp add: zero_jsnum_def)

lemma Fin_minus [simp]: "Fin a - Fin b = Fin (a - b)"
  by (simp add: minus_jsnum_def)

lemma Fin_power [simp]: "Fin a ^ k = Fin (a ^ k)"
  by (induction k) simp_all

lemma Fin_le [simp]: "(Fin a \<le> Fin b) = (a \<le> b)"
  by (auto simp: less_eq_jsnum_def)

lemma isFinite_iff: "isFinite x = (\<exists>a. x = Fin a)"
  by (cases x) simp_all

lemma n_num_Fin [simp]: "n_num (JNum (Fin a)) = Fin a"
  by (simp add: n_num_def)

lemma n_num_finite: "\<exists>a. n_num v = Fin a"
  by (cases v rule: isFiniteV.cases) (auto simp: n_num_def isFinite_iff)

lemma mathMax_Fin [simp]: "mathMax (Fin a) (Fin b) = Fin (max a b)"
  by (simp add: mathMax_def max_def)

lemma mathMin_Fin [simp]: "mathMin (Fin a) (Fin b) = Fin (min a b)"
  by (auto simp add: mathMin_def min_def)

lemma clamp_Fin [simp]: "clamp (Fin v) (Fin lo) (Fin hi) = Fin (min hi (max lo v))"
  by (simp add: clamp_def)


section \<open>The root finder\<close>

lemma same_sign_iff: "same_sign a b = (Fin 0 < a * b)"
  by (cases a; cases b) (auto simp: same_sign_def zero_less_mult_iff sgn_if)

lemma newton_finite: "newton_loop cfs k r = Some x \<Longrightarrow> isFinite r \<Longrightarrow> isFinite x"
proof (induction k arbitrary: r)
  case 0
  then show ?case by simp
next
  case (Suc k)
  then show ?case by (auto simp: Let_def split: if_splits)
qed

lemma bisect_finite: "isFinite lo \<Longrightarrow> isFinite hi \<Longrightarrow> isFinite (bisect_loop cfs k lo hi flo fhi)"
proof (induction k arbitrary: lo hi flo fhi)
  case 0
  then show ?case by (cases lo; cases hi) simp_all
next
  case (Suc k)
  have mid: "isFinite ((lo + hi) / Fin 2)"
    using Suc.prems by (cases lo; cases hi) simp_all
  show ?case
    using Suc.IH[OF Suc.prems(1) mid] Suc.IH[OF mid Suc.prems(2)] mid by (simp add: Let_def)
qed

lemma newton_loop_pos:
  "0 < k \<Longrightarrow> newton_loop cfs k r =
    (let f = npv cfs r;
         df = dnpv cfs r
     in if \<bar>f\<bar> < eps then Some r
        else if \<bar>df\<bar> < Fin (1 / 10 ^ 12) then None
        else let nr = r - f / df
             in if \<not> isFinite nr then None
                else if \<bar>nr - r\<bar> < Fin (1 / 10 ^ 10) then Some nr
                else newton_loop cfs (k - 1) nr)"
  by (cases k) (simp_all add: Let_def)

lemma newton_first: "\<bar>npv cfs r\<bar> < eps \<Longrightarrow> 0 < k \<Longrightarrow> newton_loop cfs k r = Some r"
  by (simp add: newton_loop_pos)

lemma npv_loop_zeros: "npv_loop (replicate k (Fin 0)) (Fin (1 / 10)) t (Fin 0) = Fin 0"
  by (induction k arbitrary: t) simp_all

text \<open>
  C1. \<^verbatim>\<open>irr\<close> returns \<^verbatim>\<open>NaN\<close> exactly when the Newton phase ends without a
  \<^verbatim>\<open>return\<close> and the NPV has the same strict sign at both ends \<open>-0.95\<close> and \<open>5\<close> of the
  bisection domain; whenever it has not, \<^verbatim>\<open>irr\<close> returns a finite rate. This holds for
  every array of numbers. An end value that is zero or \<^verbatim>\<open>NaN\<close> has no strict sign: the
  code's test \<^verbatim>\<open>flo * fhi > 0\<close> is then false and the bisection runs.
\<close>

theorem irr_undefined_iff:
  "(irr cfs = NaN \<longleftrightarrow>
      newton_loop cfs 80 (Fin (1 / 10)) = None
      \<and> same_sign (npv cfs (Fin (- (95 / 100)))) (npv cfs (Fin 5)))
   \<and> (\<not> same_sign (npv cfs (Fin (- (95 / 100)))) (npv cfs (Fin 5)) \<longrightarrow> isFinite (irr cfs))"
proof (cases "newton_loop cfs 80 (Fin (1 / 10))")
  case None
  have "isFinite (bisect_loop cfs 120 (Fin (- (95 / 100))) (Fin 5)
                    (npv cfs (Fin (- (95 / 100)))) (npv cfs (Fin 5)))"
    by (rule bisect_finite) simp_all
  then show ?thesis
    using None by (auto simp: irr_def Let_def same_sign_iff)
next
  case (Some x)
  then have "isFinite x"
    by (rule newton_finite) simp
  then show ?thesis
    using Some by (auto simp: irr_def isFinite_iff)
qed

text \<open>
  The single flow \<open>[1]\<close> has a zero derivative and the value 1 at both ends: undefined.
  The flows \<open>[-1000, 1100]\<close> are positive at \<open>-0.95\<close> and negative at \<open>5\<close>: a finite rate.
\<close>

theorem irr_undefined_iff_witness:
  "irr [Fin 1] = NaN \<and> isFinite (irr [Fin (- 1000), Fin 1100])"
proof -
  have n: "newton_loop [Fin 1] 80 (Fin (1 / 10)) = None"
    by (simp add: newton_loop_pos npv_def dnpv_def eps_def Let_def)
  have s: "same_sign (npv [Fin 1] (Fin (- (95 / 100)))) (npv [Fin 1] (Fin 5))"
    by (simp add: npv_def same_sign_def)
  have t: "\<not> same_sign (npv [Fin (- 1000), Fin 1100] (Fin (- (95 / 100))))
                       (npv [Fin (- 1000), Fin 1100] (Fin 5))"
    by (simp add: npv_def same_sign_def)
  show ?thesis
    using irr_undefined_iff[of "[Fin 1]"] irr_undefined_iff[of "[Fin (- 1000), Fin 1100]"] n s t
    by blast
qed

text \<open>
  C9. When the NPV is zero at the Newton starting guess \<open>0.1\<close>, \<^verbatim>\<open>irr\<close> returns \<open>0.1\<close>
  from the first iteration; in particular for the empty array and for every array of zeros.
\<close>

theorem irr_zero_npv:
  "(npv cfs (Fin (1 / 10)) = Fin 0 \<longrightarrow> irr cfs = Fin (1 / 10))
   \<and> irr [] = Fin (1 / 10)
   \<and> (\<forall>k. irr (replicate k (Fin 0)) = Fin (1 / 10))"
proof -
  have a: "irr cs = Fin (1 / 10)" if "npv cs (Fin (1 / 10)) = Fin 0" for cs
    using that newton_first[of cs "Fin (1 / 10)" 80] by (simp add: irr_def eps_def)
  have b: "npv [] (Fin (1 / 10)) = Fin 0"
    by (simp add: npv_def)
  have c: "npv (replicate k (Fin 0)) (Fin (1 / 10)) = Fin 0" for k
    by (simp add: npv_def npv_loop_zeros)
  show ?thesis
    using a b c by blast
qed

theorem irr_zero_npv_witness:
  "npv [Fin (- 1000), Fin 1100] (Fin (1 / 10)) = Fin 0
   \<and> irr [Fin (- 1000), Fin 1100] = Fin (1 / 10)"
  using irr_zero_npv[of "[Fin (- 1000), Fin 1100]"] by (simp add: npv_def)

section \<open>Payment and loan amount\<close>





lemma computeLoanAmount_override: "loanAmount st = JNum (Fin a) \<Longrightarrow> computeLoanAmount st = Fin a"
  by (simp add: computeLoanAmount_def)

lemma computeLoanAmount_auto:
  assumes "loanAmount st = JNull \<or> \<not> isFinite (toNumber (loanAmount st))"
      and "purchasePrice st = JNum (Fin p)" and "downPaymentPct st = JNum (Fin d)"
  shows "computeLoanAmount st = Fin (p * (1 - max 0 (min 100 d) / 100))"
proof -
  have "min 1 (max 0 (d / 100)) = max 0 (min 100 d) / 100"
    by (simp add: min_def max_def)
  then show ?thesis
    using assms by (auto simp: computeLoanAmount_def Let_def)
qed

text \<open>
  C8, as amended. \<^verbatim>\<open>computeLoanAmount\<close> returns the override when the field holds a finite
  number, whatever the purchase price and down payment are; when the field is \<^verbatim>\<open>null\<close> or
  does not convert to a finite number, it returns the purchase price times one minus the
  down-payment percentage clamped to \<open>[0, 100]\<close>.
\<close>

theorem computeLoanAmount_cases:
  "(loanAmount st = JNum (Fin a) \<longrightarrow> computeLoanAmount st = Fin a)
   \<and> ((loanAmount st = JNull \<or> \<not> isFinite (toNumber (loanAmount st)))
        \<and> purchasePrice st = JNum (Fin p) \<and> downPaymentPct st = JNum (Fin d)
      \<longrightarrow> computeLoanAmount st = Fin (p * (1 - max 0 (min 100 d) / 100)))"
  using computeLoanAmount_override computeLoanAmount_auto by blast

theorem computeLoanAmount_cases_witness:
  "computeLoanAmount (defaultState\<lparr>loanAmount := JNum (Fin 250000)\<rparr>) = Fin 250000
   \<and> computeLoanAmount defaultState = Fin 262500"
  using computeLoanAmount_cases[of "defaultState\<lparr>loanAmount := JNum (Fin 250000)\<rparr>" 250000]
    computeLoanAmount_cases[of defaultState _ 350000 25]
  by (simp add: defaultState_def)

text \<open>
  C8 as stated fails for an override that is not \<^verbatim>\<open>null\<close> and not finite: with
  \<^verbatim>\<open>Infinity\<close> in the field the result is computed from the purchase price and follows it.
\<close>

theorem computeLoanAmount_nonfinite_counterexample:
  "loanAmount (defaultState\<lparr>loanAmount := JNum PInf\<rparr>) \<noteq> JNull
   \<and> computeLoanAmount (defaultState\<lparr>loanAmount := JNum PInf\<rparr>) = Fin 262500
   \<and> computeLoanAmount (defaultState\<lparr>loanAmount := JNum PInf, purchasePrice := JNum (Fin 100)\<rparr>) = Fin 75"
  by (simp add: defaultState_def computeLoanAmount_def Let_def)

section \<open>The sensitivity grid\<close>

lemma mult_Fin_1 [simp]: "x * Fin 1 = x"
  by (cases x) simp_all

lemma add_Fin_0 [simp]: "x + Fin 0 = x"
  by (cases x) simp_all





section \<open>The quantile\<close>










section \<open>The amortization schedule\<close>

declare amortLoop.simps [simp del]









section \<open>The Monte Carlo engine\<close>

lemma mcLoop_outcomes:
  "mcLoop trial g i k irrs eqs =
     (case mcOutcomes trial g i k of
        None \<Rightarrow> None
      | Some ts \<Rightarrow> Some (irrs @ filter isFinite (map fst ts), eqs @ map snd ts))"
proof (induction i arbitrary: k irrs eqs)
  case 0
  then show ?case by simp
next
  case (Suc i)
  show ?case
    by (auto simp: Suc.IH split: option.splits prod.splits bind_splits)
qed

lemma mcOutcomes_length: "mcOutcomes trial g i k = Some ts \<Longrightarrow> length ts = i"
  by (induction i arbitrary: k ts) (auto split: bind_splits)

lemma runMonteCarlo_trials:
  "runMonteCarlo st runs years dspec em g =
     (case trialsOf st runs years dspec em g of
        None \<Rightarrow> None
      | Some ts \<Rightarrow> Some (mcAggregate (sortNum (filter isFinite (map fst ts))) (sortNum (map snd ts))))"
  by (simp add: runMonteCarlo_def trialsOf_def Let_def mcLoop_outcomes split: option.splits)

lemma mset_insertNum: "mset (insertNum x ys) = add_mset x (mset ys)"
  by (induction ys) simp_all

lemma mset_sortNum: "mset (sortNum xs) = mset xs"
  by (induction xs) (simp_all add: mset_insertNum)

lemma pos_diff_iff: "x \<noteq> NaN \<Longrightarrow> y \<noteq> NaN \<Longrightarrow> (Fin 0 < x - y) = (y < x)"
  by (cases x; cases y) (simp_all add: minus_jsnum_def)

lemma jsnum_le_total: "x \<noteq> NaN \<Longrightarrow> y \<noteq> NaN \<Longrightarrow> \<not> y < x \<Longrightarrow> x \<le> y"
  by (cases x; cases y) (auto simp: less_eq_jsnum_def)

lemma jsnum_less_le: "(y::jsnum) < x \<Longrightarrow> y \<le> x"
  by (simp add: less_eq_jsnum_def)

lemma jsnum_le_trans: "(x::jsnum) \<le> y \<Longrightarrow> y \<le> z \<Longrightarrow> x \<le> z"
  by (cases x; cases y; cases z) (auto simp: less_eq_jsnum_def)

lemma set_insertNum: "set (insertNum x ys) = insert x (set ys)"
  by (induction ys) auto

lemma sorted_insertNum:
  "sorted_wrt (\<le>) ys \<Longrightarrow> x \<noteq> NaN \<Longrightarrow> NaN \<notin> set ys \<Longrightarrow> sorted_wrt (\<le>) (insertNum x ys)"
proof (induction ys)
  case Nil
  then show ?case by simp
next
  case (Cons y ys)
  have nn: "x \<noteq> NaN" "y \<noteq> NaN" "NaN \<notin> set ys"
    using Cons.prems by auto
  have srt: "sorted_wrt (\<le>) ys" "\<And>z. z \<in> set ys \<Longrightarrow> y \<le> z"
    using Cons.prems(1) by auto
  show ?case
  proof (cases "Fin 0 < x - y")
    case True
    then have "y < x"
      using nn by (simp add: pos_diff_iff)
    then have "y \<le> x"
      by (rule jsnum_less_le)
    then show ?thesis
      using True srt Cons.IH[OF srt(1) nn(1,3)] by (auto simp: set_insertNum)
  next
    case False
    then have "\<not> y < x"
      using nn by (simp add: pos_diff_iff)
    then have xy: "x \<le> y"
      using nn by (intro jsnum_le_total)
    have "x \<le> z" if "z \<in> set ys" for z
      using xy srt(2)[OF that] by (rule jsnum_le_trans)
    then show ?thesis
      using False xy srt by auto
  qed
qed

lemma sorted_sortNum: "NaN \<notin> set xs \<Longrightarrow> sorted_wrt (\<le>) (sortNum xs)"
proof (induction xs)
  case Nil
  then show ?case by simp
next
  case (Cons x xs)
  have nn: "x \<noteq> NaN" "NaN \<notin> set xs"
    using Cons.prems by auto
  have "set (sortNum xs) = set xs"
    by (metis mset_sortNum set_mset_mset)
  then have "NaN \<notin> set (sortNum xs)"
    using nn(2) by simp
  then show ?case
    using Cons.IH[OF nn(2)] nn(1) by (simp add: sorted_insertNum)
qed

lemma draw_nonzero_Some:
  "draw_nonzero g k = Some y \<Longrightarrow> \<exists>j. fst y = Fin (g j) \<and> g j \<noteq> 0"
proof (induction rule: draw_nonzero.raw_induct[rotated, consumes 1])
  case (1 draw g k y)
  then show ?case
    by (auto split: if_splits)
qed

lemma draw_nonzero_returns:
  "g (k + d) \<noteq> 0 \<Longrightarrow> \<exists>u k1. draw_nonzero g k = Some (u, k1)"
proof (induction d arbitrary: k)
  case 0
  then show ?case
    by (subst draw_nonzero.simps) simp
next
  case (Suc d)
  then have "\<exists>u k1. draw_nonzero g (Suc k) = Some (u, k1)"
    by simp
  then show ?case
    by (subst draw_nonzero.simps) simp
qed

lemma draw_nonzero_recur:
  assumes "draws_recur g"
  shows "\<exists>u k1. draw_nonzero g k = Some (u, k1)"
proof -
  obtain j where "k \<le> j" "g j \<noteq> 0"
    using assms unfolding draws_recur_def by blast
  then have "g (k + (j - k)) \<noteq> 0"
    by simp
  then show ?thesis
    by (rule draw_nonzero_returns)
qed

lemma randn_returns: "draws_recur g \<Longrightarrow> \<exists>z k1. randn g k = Some (z, k1)"
  unfolding randn_def using draw_nonzero_recur[of g]
  by (metis (no_types, lifting) bind.bind_lunit case_prod_conv)

lemma gauss_finite:
  assumes "0 < u" "u < 1"
  shows "isFinite (mathSqrt (Fin (- 2) * mathLog (Fin u)) * mathCos (Fin 2 * Fin pi * Fin v))"
proof -
  have "ln u < 0"
    using assms by simp
  then have "0 \<le> - 2 * ln u"
    by simp
  then show ?thesis
    using assms(1) by simp
qed

lemma randn_finite:
  assumes "randn g k = Some (z, k1)" "uniform_draws g"
  shows "isFinite z"
proof -
  obtain u k' v where d: "draw_nonzero g k = Some (u, k')" "draw_nonzero g k' = Some (v, k1)"
    and z: "z = mathSqrt (Fin (- 2) * mathLog u) * mathCos (Fin 2 * Fin pi * v)"
    using assms(1) unfolding randn_def by (auto split: bind_splits)
  obtain i j where ij: "u = Fin (g i)" "g i \<noteq> 0" "v = Fin (g j)"
    using draw_nonzero_Some[OF d(1)] draw_nonzero_Some[OF d(2)] by auto
  have "0 \<le> g i" "g i < 1"
    using assms(2) by (simp_all add: uniform_draws_def)
  then have "0 < g i" "g i < 1"
    using ij(2) by simp_all
  then show ?thesis
    unfolding z ij(1,3) by (rule gauss_finite)
qed

lemma mcOutcomes_returns:
  assumes "draws_recur g"
  shows "\<exists>ts. mcOutcomes trial g i k = Some ts"
proof (induction i arbitrary: k)
  case 0
  then show ?case by simp
next
  case (Suc i)
  obtain z1 k1 where r1: "randn g k = Some (z1, k1)"
    using randn_returns[OF assms] by blast
  obtain z2 k2 where r2: "randn g k1 = Some (z2, k2)"
    using randn_returns[OF assms] by blast
  obtain z3 k3 where r3: "randn g k2 = Some (z3, k3)"
    using randn_returns[OF assms] by blast
  obtain z4 k4 where r4: "randn g k3 = Some (z4, k4)"
    using randn_returns[OF assms] by blast
  obtain ts where "mcOutcomes trial g i k4 = Some ts"
    using Suc.IH by blast
  then show ?case
    using r1 r2 r3 r4 by simp
qed

lemma mcOutcomes_constant:
  assumes "\<And>z1 z2 z3 z4. isFinite z1 \<Longrightarrow> isFinite z2 \<Longrightarrow> isFinite z3 \<Longrightarrow> isFinite z4
             \<Longrightarrow> trial z1 z2 z3 z4 = t0"
      and "uniform_draws g"
  shows "mcOutcomes trial g i k = Some ts \<Longrightarrow> ts = replicate i t0"
proof (induction i arbitrary: k ts)
  case 0
  then show ?case by simp
next
  case (Suc i)
  obtain z1 k1 z2 k2 z3 k3 z4 k4 rest where r:
    "randn g k = Some (z1, k1)" "randn g k1 = Some (z2, k2)" "randn g k2 = Some (z3, k3)"
    "randn g k3 = Some (z4, k4)" "mcOutcomes trial g i k4 = Some rest"
    "ts = trial z1 z2 z3 z4 # rest"
    using Suc.prems by (auto split: bind_splits)
  have "trial z1 z2 z3 z4 = t0"
    using r(1-4) assms(2) by (intro assms(1)) (auto intro: randn_finite)
  then show ?case
    using Suc.IH[OF r(5)] r(6) by simp
qed

lemma sample_zero_std: "std d = Fin 0 \<Longrightarrow> isFinite z \<Longrightarrow> sample d z = sample d (Fin 0)"
  by (cases z) (simp_all add: sample_def)

lemma mcTrial_zero_std:
  assumes "std (d_rent dspec) = Fin 0" "std (d_exp dspec) = Fin 0"
          "std (d_appr dspec) = Fin 0" "std (d_vac dspec) = Fin 0"
          "isFinite z1" "isFinite z2" "isFinite z3" "isFinite z4"
  shows "mcTrial st years dspec em invested sched z1 z2 z3 z4
         = mcTrial st years dspec em invested sched (Fin 0) (Fin 0) (Fin 0) (Fin 0)"
  unfolding mcTrial_def
    sample_zero_std[OF assms(1,5)] sample_zero_std[OF assms(2,6)]
    sample_zero_std[OF assms(3,7)] sample_zero_std[OF assms(4,8)] ..














lemma n_num_idem [simp]: "n_num (JNum (n_num v)) = n_num v"
  using n_num_finite[of v] by auto







subsection \<open>One run on a concrete deal\<close>

lemma cashDeal_loan: "computeLoanAmount cashDeal = Fin 0"
  by (simp add: cashDeal_def defaultState_def computeLoanAmount_def Let_def)

lemma cashDeal_invested: "totalCashInvested cashDeal = Fin 350000"
  by (simp add: totalCashInvested_def cashDeal_loan Let_def) (simp add: cashDeal_def defaultState_def)

lemma cashDeal_sched:
  "amortSchedule (JNum (Fin 0)) (interestRate cashDeal) (termYears cashDeal) =
     [\<lparr>month = 1, payment = Fin 0, principal = Fin 0, interest = Fin 0, balance = Fin 0\<rparr>]"
  by (simp add: amortSchedule_def monthlyPayment_def Let_def cashDeal_def defaultState_def
      amortLoop.simps[of _ _ _ "Suc 0"])

lemma cashDeal_year:
  assumes "isFinite a" "isFinite b" "isFinite c"
  shows "noi (proformaAnnual (yearState cashDeal a b c)) = Fin 0"
    "ds (proformaAnnual (yearState cashDeal a b c)) = Fin 0"
proof -
  obtain a' b' c' where v: "a = Fin a'" "b = Fin b'" "c = Fin c'"
    using assms by (auto simp: isFinite_iff)
  define yr where "yr = yearState cashDeal a b c"
  have f: "rentMonthly yr = JNum (Fin 0)" "otherIncomeLines yr = Some []"
    "vacancyPct yr = JNum (Fin (c' * 100))" "propertyTaxesAnnual yr = JNum (Fin 0)"
    "insuranceAnnual yr = JNum (Fin 0)" "hoaMonthly yr = JNum (Fin 0)"
    "utilitiesMonthly yr = JNum (Fin 0)" "managementPct yr = JNum (Fin 8)"
    "maintenancePct yr = JNum (Fin 5)" "capexPct yr = JNum (Fin 5)"
    "otherExpenseLines yr = Some []" "interestRate yr = JNum (Fin (675 / 100))"
    "termYears yr = JNum (Fin 30)" "purchasePrice yr = JNum (Fin 350000)"
    "loanAmount yr = JNull" "downPaymentPct yr = JNum (Fin 100)"
    by (simp_all add: yr_def yearState_def cashDeal_def defaultState_def scaleLines_def orElse_def v)
  have loan: "computeLoanAmount yr = Fin 0"
    by (simp add: computeLoanAmount_def f)
  have pay: "monthlyPayment (JNum (Fin 0)) x y = Fin 0" for x y
    by (simp add: monthlyPayment_def)
  show "noi (proformaAnnual (yearState cashDeal a b c)) = Fin 0"
    unfolding yr_def[symmetric] proformaAnnual_def Let_def f loan pay
    by (simp add: sumLines_def)
  show "ds (proformaAnnual (yearState cashDeal a b c)) = Fin 0"
    unfolding yr_def[symmetric] proformaAnnual_def Let_def f loan pay
    by (simp add: sumLines_def)
qed

lemma irr_sunk: "irr [Fin (- 350000), Fin 0] = NaN"
proof -
  have "newton_loop [Fin (- 350000), Fin 0] 80 (Fin (1 / 10)) = None"
    by (simp add: newton_loop_pos npv_def dnpv_def eps_def Let_def)
  moreover have "Fin 0 < npv [Fin (- 350000), Fin 0] (Fin (- (95 / 100))) * npv [Fin (- 350000), Fin 0] (Fin 5)"
    by (simp add: npv_def)
  ultimately show ?thesis
    by (simp add: irr_def Let_def)
qed

lemma cashDeal_trial:
  "mcTrial cashDeal 1 (zeroVariance (Fin (- 100))) ''appreciation'' (Fin 350000)
     [\<lparr>month = 1, payment = Fin 0, principal = Fin 0, interest = Fin 0, balance = Fin 0\<rparr>]
     (Fin 0) (Fin 0) (Fin 0) (Fin 0) = (NaN, Fin 0)"
proof -
  have s: "sample (d_rent (zeroVariance (Fin (- 100)))) (Fin 0) = Fin (3 / 100)"
    "sample (d_exp (zeroVariance (Fin (- 100)))) (Fin 0) = Fin (2 / 100)"
    "sample (d_appr (zeroVariance (Fin (- 100)))) (Fin 0) = Fin (- 1)"
    "sample (d_vac (zeroVariance (Fin (- 100)))) (Fin 0) = Fin (5 / 100)"
    by (simp_all add: sample_def zeroVariance_def)
  have p: "purchasePrice cashDeal = JNum (Fin 350000)" "sellingCostPct cashDeal = JNum (Fin 7)"
    by (simp_all add: cashDeal_def defaultState_def)
  have y: "[1..<Suc 1] = [1]"
    by simp
  show ?thesis
    unfolding mcTrial_def Let_def s p y
    by (simp add: cashDeal_year orElse_def irr_sunk)
qed

lemma half_draws: "uniform_draws (\<lambda>k. 1 / 2)" "draws_recur (\<lambda>k. 1 / 2)"
  by (auto simp: uniform_draws_def draws_recur_def)

lemma cashDeal_trials:
  "trialsOf cashDeal 2 1 (zeroVariance (Fin (- 100))) ''appreciation'' (\<lambda>k. 1 / 2)
     = Some [(NaN, Fin 0), (NaN, Fin 0)]"
proof -
  define trial where "trial = mcTrial cashDeal 1 (zeroVariance (Fin (- 100))) ''appreciation'' (Fin 350000)
     [\<lparr>month = 1, payment = Fin 0, principal = Fin 0, interest = Fin 0, balance = Fin 0\<rparr>]"
  have tr: "trialsOf cashDeal 2 1 (zeroVariance (Fin (- 100))) ''appreciation'' h
              = mcOutcomes trial h 2 0" for h
    unfolding trialsOf_def cashDeal_loan cashDeal_invested cashDeal_sched trial_def ..
  have const: "trial z1 z2 z3 z4 = (NaN, Fin 0)"
    if "isFinite z1" "isFinite z2" "isFinite z3" "isFinite z4" for z1 z2 z3 z4
    unfolding trial_def cashDeal_trial[symmetric]
    using that by (intro mcTrial_zero_std) (simp_all add: zeroVariance_def)
  obtain ts where ts: "mcOutcomes trial (\<lambda>k. 1 / 2) 2 0 = Some ts"
    using mcOutcomes_returns[OF half_draws(2)] by blast
  have "ts = replicate 2 (NaN, Fin 0)"
    using mcOutcomes_constant[of trial "(NaN, Fin 0)", OF const half_draws(1) ts] .
  then show ?thesis
    unfolding tr ts by (simp add: numeral_2_eq_2)
qed

subsection \<open>Aggregation and determinism\<close>

text \<open>
  C5. When \<^verbatim>\<open>runMonteCarlo\<close> returns, there is one outcome per trial; the rates that enter
  the IRR percentiles and the mean are exactly the finite ones among them, while the net
  sale proceeds of every trial enter the proceeds percentiles; each percentile is the
  quantile of the sorted collection, which holds the same values as the unsorted one. The
  rates are in ascending order, and so are the proceeds when none of them is \<^verbatim>\<open>NaN\<close>
  (with a \<^verbatim>\<open>NaN\<close> the comparator is inconsistent and the order is the engine's).
\<close>

theorem monteCarlo_aggregation:
  assumes "runMonteCarlo st runs years dspec em g = Some res"
  shows "\<exists>ts irrs eqs.
      trialsOf st runs years dspec em g = Some ts \<and> length ts = runs
    \<and> irrs = sortNum (filter isFinite (map fst ts)) \<and> eqs = sortNum (map snd ts)
    \<and> mset irrs = mset (filter isFinite (map fst ts)) \<and> mset eqs = mset (map snd ts)
    \<and> sorted_wrt (\<le>) irrs \<and> (NaN \<notin> snd ` set ts \<longrightarrow> sorted_wrt (\<le>) eqs)
    \<and> irr_p10 res = quantile irrs (Fin (10 / 100))
    \<and> irr_p50 res = quantile irrs (Fin (50 / 100))
    \<and> irr_p90 res = quantile irrs (Fin (90 / 100))
    \<and> irr_mean res = foldl (+) (Fin 0) irrs / orElse (Fin (real (length irrs))) (Fin 1)
    \<and> eq_p10 res = quantile eqs (Fin (10 / 100))
    \<and> eq_p50 res = quantile eqs (Fin (50 / 100))
    \<and> eq_p90 res = quantile eqs (Fin (90 / 100))"
proof -
  obtain ts where ts: "trialsOf st runs years dspec em g = Some ts"
    and res: "res = mcAggregate (sortNum (filter isFinite (map fst ts))) (sortNum (map snd ts))"
    using assms unfolding runMonteCarlo_trials by (auto split: option.splits)
  have len: "length ts = runs"
    using ts unfolding trialsOf_def by (rule mcOutcomes_length)
  have "NaN \<notin> set (filter isFinite (map fst ts))"
    by auto
  then have s1: "sorted_wrt (\<le>) (sortNum (filter isFinite (map fst ts)))"
    by (rule sorted_sortNum)
  have s2: "sorted_wrt (\<le>) (sortNum (map snd ts))" if "NaN \<notin> snd ` set ts"
    using that by (intro sorted_sortNum) simp
  show ?thesis
    using ts len s1 s2 by (simp add: res mcAggregate_def mset_sortNum)
qed


theorem monteCarlo_aggregation_witness:
  "\<exists>res ts. runMonteCarlo cashDeal 2 1 (zeroVariance (Fin (- 100))) ''appreciation'' (\<lambda>k. 1 / 2) = Some res
     \<and> trialsOf cashDeal 2 1 (zeroVariance (Fin (- 100))) ''appreciation'' (\<lambda>k. 1 / 2) = Some ts
     \<and> length ts = 2
     \<and> mset (sortNum (map snd ts)) = mset (map snd ts)
     \<and> irr_p50 res = quantile (sortNum (filter isFinite (map fst ts))) (Fin (50 / 100))
     \<and> eq_p50 res = quantile (sortNum (map snd ts)) (Fin (50 / 100))"
proof -
  have "\<exists>res. runMonteCarlo cashDeal 2 1 (zeroVariance (Fin (- 100))) ''appreciation'' (\<lambda>k. 1 / 2) = Some res"
    unfolding runMonteCarlo_trials cashDeal_trials by (simp only: option.case) blast
  then obtain res where
    run: "runMonteCarlo cashDeal 2 1 (zeroVariance (Fin (- 100))) ''appreciation'' (\<lambda>k. 1 / 2) = Some res"
    by blast
  show ?thesis
    using monteCarlo_aggregation[OF run] run by blast
qed

text \<open>
  C10. If no trial has a finite rate, \<^verbatim>\<open>runMonteCarlo\<close> returns with \<^verbatim>\<open>irr_mean\<close> 0 and
  the three IRR percentiles \<^verbatim>\<open>NaN\<close>.
\<close>

theorem monteCarlo_no_finite_irr:
  assumes "trialsOf st runs years dspec em g = Some ts"
      and "\<forall>t\<in>set ts. \<not> isFinite (fst t)"
  shows "\<exists>res. runMonteCarlo st runs years dspec em g = Some res
           \<and> irr_mean res = Fin 0
           \<and> irr_p10 res = JNum NaN \<and> irr_p50 res = JNum NaN \<and> irr_p90 res = JNum NaN"
proof -
  have "filter isFinite (map fst ts) = []"
    using assms(2) by (simp add: filter_empty_conv)
  then show ?thesis
    using assms(1) by (simp add: runMonteCarlo_trials mcAggregate_def quantile_def orElse_def)
qed


theorem monteCarlo_no_finite_irr_witness:
  "\<exists>res. runMonteCarlo cashDeal 2 1 (zeroVariance (Fin (- 100))) ''appreciation'' (\<lambda>k. 1 / 2) = Some res
     \<and> irr_mean res = Fin 0
     \<and> irr_p10 res = JNum NaN \<and> irr_p50 res = JNum NaN \<and> irr_p90 res = JNum NaN"
  using monteCarlo_no_finite_irr[OF cashDeal_trials] by simp




end
